theory Spec2Isabelle
  imports Main "HOL-Library.Word"
begin

section \<open>Data model\<close>

text \<open>
  The two modules under study are \<^verbatim>\<open>hal/ultrasonic.c\<close> (the echo-timing driver) and
  \<^verbatim>\<open>app/app.c\<close> (the distance classifier and the alert handlers). Both work on
  file-level globals, so the model threads one record of all of them through every
  function. \<^verbatim>\<open>uint8\<close> and \<^verbatim>\<open>uint16\<close> are machine words.
\<close>

type_synonym uint8 = "8 word"
type_synonym uint16 = "16 word"

datatype ICU_EdgeType = FALLING | RAISING

datatype STATE_MACHINE = IDLE | DETECTED | SAFE | WARNING | DANGER

datatype LED_ID = LED_RED_3 | LED_GREEN_2 | LED_BLUE_1

text \<open>What the readout device has been asked to show: a text or a number.\<close>

datatype lcd_item = Text string | Number uint16

text \<open>
  The trace of one execution: the statements of \<^verbatim>\<open>Ultrasonic_readDistance\<close> (and of
  \<^verbatim>\<open>Ultrasonic_Trigger\<close>, which it calls) in the order they run, and \<open>Isr\<close> for every
  invocation of the capture interrupt's callback. The trace is ghost state: no function
  reads it.
\<close>

datatype action =
    TriggerHigh | DelayUs nat | TriggerLow
  | InterruptOn | PollReady | InterruptOff | ClearReady | ReadTimeHigh
  | Isr

text \<open>
  What the hardware does behind the program's back: the capture timer counts one tick,
  or the echo line shows an edge of the given polarity.
\<close>

datatype hw_event = Tick | Edge ICU_EdgeType

record sys =
  g_timeHigh :: uint16
  g_edgeCount :: uint8
  g_readyFlag :: uint8
  icu_timer :: uint16
  icu_edge :: ICU_EdgeType
  icu_int :: bool
  trigger_pin :: bool
  g_distance :: uint16
  g_stateMachine :: STATE_MACHINE
  lcd_text :: "lcd_item list"
  led_red :: bool
  led_green :: bool
  led_blue :: bool
  buzzer :: bool
  timeline :: "(nat \<times> bool \<times> bool \<times> bool \<times> bool) list"
  trace :: "action list"

text \<open>
  The fields \<open>g_timeHigh\<close>, \<open>g_edgeCount\<close>, \<open>g_readyFlag\<close> are the statics of
  \<^verbatim>\<open>ultrasonic.c\<close>; \<open>g_distance\<close> and \<open>g_stateMachine\<close> the globals of \<^verbatim>\<open>app.c\<close>.
  \<open>icu_timer\<close>, \<open>icu_edge\<close>, \<open>icu_int\<close> stand for the capture peripheral (elapsed-time
  counter, detection polarity, capture interrupt enable), \<open>trigger_pin\<close> for the trigger
  line, \<open>lcd_text\<close>, \<open>led_red\<close>, \<open>led_green\<close>, \<open>led_blue\<close>, \<open>buzzer\<close> for the actuators.
  \<open>timeline\<close> lists the millisecond delays that have elapsed, each with the levels
  (R, G, B, buzzer) that were held during it.
\<close>

definition LOGIC_HIGH :: uint8 where
  "LOGIC_HIGH = 1"

definition LOGIC_LOW :: uint8 where
  "LOGIC_LOW = 0"

definition logged :: "action \<Rightarrow> sys \<Rightarrow> sys" where
  "logged a s = s\<lparr>trace := trace s @ [a]\<rparr>"

definition do_all :: "('s \<Rightarrow> 's) list \<Rightarrow> 's \<Rightarrow> 's" where
  "do_all fs s = fold (\<lambda>f. f) fs s"

section \<open>Collaborators outside the two modules\<close>

text \<open>
  Modelled from the spec: the timer/capture peripheral driver (\<^verbatim>\<open>mcal/icu.c\<close>), whose
  source is not part of the files under study. The spec lists its interface as
  \<^verbatim>\<open>clearElapsedTime()\<close>, \<^verbatim>\<open>readElapsedTime() -> ticks\<close>,
  \<^verbatim>\<open>setEdgePolarity(rising|falling)\<close>, \<^verbatim>\<open>enableCaptureInterrupt()\<close> and
  \<^verbatim>\<open>disableCaptureInterrupt()\<close>.
\<close>

definition ICU_clearTimerValue :: "sys \<Rightarrow> sys" where
  "ICU_clearTimerValue s = s\<lparr>icu_timer := 0\<rparr>"

definition ICU_getInputCaptureValue :: "sys \<Rightarrow> uint16" where
  "ICU_getInputCaptureValue s = icu_timer s"

definition ICU_setEdgeDetectionType :: "ICU_EdgeType \<Rightarrow> sys \<Rightarrow> sys" where
  "ICU_setEdgeDetectionType e s = s\<lparr>icu_edge := e\<rparr>"

definition ICU_interruptOn :: "sys \<Rightarrow> sys" where
  "ICU_interruptOn s = s\<lparr>icu_int := True\<rparr>"

definition ICU_interruptOff :: "sys \<Rightarrow> sys" where
  "ICU_interruptOff s = s\<lparr>icu_int := False\<rparr>"

text \<open>
  Modelled from the spec: the digital output pin (\<^verbatim>\<open>mcal/gpio.c\<close>) with
  \<^verbatim>\<open>setHigh()\<close> and \<^verbatim>\<open>setLow()\<close>; the only pin the driver writes is the trigger line.
\<close>

definition GPIO_ARR_setPinState :: "uint8 \<Rightarrow> sys \<Rightarrow> sys" where
  "GPIO_ARR_setPinState v s = s\<lparr>trigger_pin := (v \<noteq> 0)\<rparr>"

text \<open>
  Modelled from the spec: the busy-wait delay primitive, which blocks the caller for the
  given time and has no side effect. The microsecond delay of the trigger pulse is noted
  in the trace; a millisecond delay is entered in the timeline with the levels held.
\<close>

definition delay_us :: "nat \<Rightarrow> sys \<Rightarrow> sys" where
  "delay_us n s = logged (DelayUs n) s"

definition delay_ms :: "nat \<Rightarrow> sys \<Rightarrow> sys" where
  "delay_ms n s =
     s\<lparr>timeline := timeline s @ [(n, led_red s, led_green s, led_blue s, buzzer s)]\<rparr>"

text \<open>
  Modelled from the spec: the readout device (\<^verbatim>\<open>hal/lcd.c\<close>) with
  \<^verbatim>\<open>moveCursorHome()\<close>, \<^verbatim>\<open>writeText(string)\<close> and \<^verbatim>\<open>writeInteger(value)\<close>. The
  model keeps what has been written since the cursor was last placed; glyphs left over
  from an earlier, longer text are not modelled.
\<close>

definition LCD_moveCursor :: "nat \<Rightarrow> nat \<Rightarrow> sys \<Rightarrow> sys" where
  "LCD_moveCursor row col s = s\<lparr>lcd_text := []\<rparr>"

definition LCD_displayString :: "string \<Rightarrow> sys \<Rightarrow> sys" where
  "LCD_displayString str s = s\<lparr>lcd_text := lcd_text s @ [Text str]\<rparr>"

definition LCD_intgerToString :: "uint16 \<Rightarrow> sys \<Rightarrow> sys" where
  "LCD_intgerToString v s = s\<lparr>lcd_text := lcd_text s @ [Number v]\<rparr>"

text \<open>
  Modelled from the spec: the three indicator channels (\<^verbatim>\<open>hal/led.c\<close>) and the buzzer
  (\<^verbatim>\<open>hal/buzzer.c\<close>), each an on/off output.
\<close>

definition LED_on :: "LED_ID \<Rightarrow> sys \<Rightarrow> sys" where
  "LED_on led s =
     (case led of
        LED_RED_3 \<Rightarrow> s\<lparr>led_red := True\<rparr>
      | LED_GREEN_2 \<Rightarrow> s\<lparr>led_green := True\<rparr>
      | LED_BLUE_1 \<Rightarrow> s\<lparr>led_blue := True\<rparr>)"

definition LED_off :: "LED_ID \<Rightarrow> sys \<Rightarrow> sys" where
  "LED_off led s =
     (case led of
        LED_RED_3 \<Rightarrow> s\<lparr>led_red := False\<rparr>
      | LED_GREEN_2 \<Rightarrow> s\<lparr>led_green := False\<rparr>
      | LED_BLUE_1 \<Rightarrow> s\<lparr>led_blue := False\<rparr>)"

definition Buzzer_on :: "sys \<Rightarrow> sys" where
  "Buzzer_on s = s\<lparr>buzzer := True\<rparr>"

definition Buzzer_off :: "sys \<Rightarrow> sys" where
  "Buzzer_off s = s\<lparr>buzzer := False\<rparr>"

section \<open>The echo-timing driver (\<^verbatim>\<open>hal/ultrasonic.c\<close>)\<close>

text \<open>
  \<^verbatim>\<open>Ultrasonic_edgeProcessing\<close>, the callback of the capture interrupt. The branch on
  \<open>g_edgeCount\<close> has no final \<^verbatim>\<open>else\<close>: any other count leaves everything as it is.
\<close>

definition Ultrasonic_edgeProcessing :: "sys \<Rightarrow> sys" where
  "Ultrasonic_edgeProcessing s =
     (if g_edgeCount s = 0 then
        (let s1 = ICU_clearTimerValue s;
             s2 = ICU_setEdgeDetectionType FALLING s1
         in s2\<lparr>g_edgeCount := g_edgeCount s2 + 1\<rparr>)
      else if g_edgeCount s = 1 then
        (let s1 = s\<lparr>g_timeHigh := ICU_getInputCaptureValue s\<rparr>;
             s2 = s1\<lparr>g_readyFlag := LOGIC_HIGH\<rparr>;
             s3 = ICU_setEdgeDetectionType RAISING s2
         in s3\<lparr>g_edgeCount := 0\<rparr>)
      else s)"

text \<open>
  Modelled from the spec: the interrupt boundary of the capture peripheral
  (\<^verbatim>\<open>mcal/icu.c\<close>, not among the files under study). A tick advances the 16-bit counter.
  An edge reaches the callback registered by \<^verbatim>\<open>ICU_setCallBack\<close> only while the
  capture interrupt is enabled and the edge has the polarity currently selected; the
  callback then runs to completion before the foreground continues.
\<close>

definition hw_step :: "hw_event \<Rightarrow> sys \<Rightarrow> sys" where
  "hw_step e s =
     (case e of
        Tick \<Rightarrow> s\<lparr>icu_timer := icu_timer s + 1\<rparr>
      | Edge p \<Rightarrow>
          (if icu_int s \<and> icu_edge s = p then Ultrasonic_edgeProcessing (logged Isr s)
           else s))"

fun hw_run :: "hw_event list \<Rightarrow> sys \<Rightarrow> sys" where
  "hw_run [] s = s"
| "hw_run (e # es) s = hw_run es (hw_step e s)"

text \<open>
  The foreground runs against a schedule \<open>env\<close>: \<open>env k\<close> lists the hardware events that
  happen just before the \<open>k\<close>-th foreground statement of the measurement (statements are
  counted from 0 at the entry of \<^verbatim>\<open>Ultrasonic_readDistance\<close>).
\<close>

type_synonym schedule = "nat \<Rightarrow> hw_event list"

text \<open>\<^verbatim>\<open>Ultrasonic_Trigger\<close>: pin high, 10 microseconds, pin low (statements 0, 1, 2).\<close>

definition Ultrasonic_Trigger :: "schedule \<Rightarrow> sys \<Rightarrow> sys" where
  "Ultrasonic_Trigger env s =
     (let s1 = GPIO_ARR_setPinState LOGIC_HIGH (logged TriggerHigh (hw_run (env 0) s));
          s2 = delay_us 10 (hw_run (env 1) s1);
          s3 = GPIO_ARR_setPinState LOGIC_LOW (logged TriggerLow (hw_run (env 2) s2))
      in s3)"

text \<open>
  The busy-wait \<^verbatim>\<open>while (!g_readyFlag);\<close>. Every poll is one foreground statement; the
  loop has no bound, so it is a partial function and \<open>None\<close> means that it never exits.
  On exit it returns the number of the next statement and the state.
\<close>

partial_function (option) wait_ready :: "schedule \<Rightarrow> nat \<Rightarrow> sys \<Rightarrow> (nat \<times> sys) option" where
  "wait_ready env k s =
     (if g_readyFlag (hw_run (env k) s) \<noteq> 0
      then Some (Suc k, logged PollReady (hw_run (env k) s))
      else wait_ready env (Suc k) (logged PollReady (hw_run (env k) s)))"

text \<open>The conversion \<^verbatim>\<open>(uint16) ((g_timeHigh) / 117)\<close>: unsigned 16-bit division.\<close>

definition ticks_to_distance :: "uint16 \<Rightarrow> uint16" where
  "ticks_to_distance ticks = ticks div 117"

text \<open>
  \<^verbatim>\<open>Ultrasonic_readDistance\<close>: trigger (statements 0 to 2), enable the capture interrupt
  (statement 3), busy-wait (from statement 4), disable the interrupt, clear the flag,
  read and convert the tick count. The result is the distance and the state left behind.
  \<open>enter_wait\<close> is the part before the loop, named because the theorems about the loop
  speak of the state in which it is entered.
\<close>

definition enter_wait :: "schedule \<Rightarrow> sys \<Rightarrow> sys" where
  "enter_wait env s =
     ICU_interruptOn (logged InterruptOn (hw_run (env 3) (Ultrasonic_Trigger env s)))"

definition Ultrasonic_readDistance :: "schedule \<Rightarrow> sys \<Rightarrow> (uint16 \<times> sys) option" where
  "Ultrasonic_readDistance env s =
     (case wait_ready env 4 (enter_wait env s) of
        None \<Rightarrow> None
      | Some (k, s1) \<Rightarrow>
          (let s2 = ICU_interruptOff (logged InterruptOff (hw_run (env k) s1));
               s3 = (logged ClearReady (hw_run (env (k + 1)) s2))\<lparr>g_readyFlag := LOGIC_LOW\<rparr>;
               s4 = logged ReadTimeHigh (hw_run (env (k + 2)) s3);
               l_distance = ticks_to_distance (g_timeHigh s4)
           in Some (l_distance, s4)))"

section \<open>The classifier and the alert handlers (\<^verbatim>\<open>app/app.c\<close>)\<close>

definition DISTANCE_DANGER :: uint16 where
  "DISTANCE_DANGER = 5"

definition DISTANCE_WARNING_MAX :: uint16 where
  "DISTANCE_WARNING_MAX = 10"

definition DISTANCE_SAFE_MAX :: uint16 where
  "DISTANCE_SAFE_MAX = 15"

definition DISTANCE_DETECTED_MAX :: uint16 where
  "DISTANCE_DETECTED_MAX = 20"

text \<open>The cascade at the head of \<^verbatim>\<open>StateMachineHandler\<close>; the comparisons are unsigned.\<close>

definition classify :: "uint16 \<Rightarrow> STATE_MACHINE" where
  "classify d =
     (if d \<le> DISTANCE_DANGER then DANGER
      else if d \<le> DISTANCE_WARNING_MAX then WARNING
      else if d \<le> DISTANCE_SAFE_MAX then SAFE
      else if d \<le> DISTANCE_DETECTED_MAX then DETECTED
      else IDLE)"

definition LCD_dispDataNorm :: "sys \<Rightarrow> sys" where
  "LCD_dispDataNorm s =
     do_all [LCD_moveCursor 0 0,
             LCD_displayString ''Distance= '',
             LCD_intgerToString (g_distance s),
             LCD_displayString ''cm''] s"

definition LCD_dispDataDanger :: "sys \<Rightarrow> sys" where
  "LCD_dispDataDanger s =
     do_all [LCD_moveCursor 0 0,
             LCD_displayString ''      STOP      ''] s"

definition handleDangerState :: "sys \<Rightarrow> sys" where
  "handleDangerState =
     do_all [LCD_dispDataDanger,
             Buzzer_on,
             LED_on LED_RED_3,
             LED_on LED_GREEN_2,
             LED_on LED_BLUE_1,
             delay_ms 200,
             Buzzer_off,
             LED_off LED_RED_3,
             LED_off LED_GREEN_2,
             LED_off LED_BLUE_1,
             delay_ms 200]"

definition handleWarningState :: "sys \<Rightarrow> sys" where
  "handleWarningState =
     do_all [LCD_dispDataNorm,
             Buzzer_off,
             LED_on LED_RED_3,
             LED_on LED_GREEN_2,
             LED_on LED_BLUE_1]"

definition handleSafeState :: "sys \<Rightarrow> sys" where
  "handleSafeState =
     do_all [LCD_dispDataNorm,
             Buzzer_off,
             LED_on LED_RED_3,
             LED_on LED_GREEN_2,
             LED_off LED_BLUE_1]"

definition handleDetectedState :: "sys \<Rightarrow> sys" where
  "handleDetectedState =
     do_all [LCD_dispDataNorm,
             Buzzer_off,
             LED_on LED_RED_3,
             LED_off LED_GREEN_2,
             LED_off LED_BLUE_1]"

definition handleIdleState :: "sys \<Rightarrow> sys" where
  "handleIdleState =
     do_all [LCD_dispDataNorm,
             Buzzer_off,
             LED_off LED_RED_3,
             LED_off LED_GREEN_2,
             LED_off LED_BLUE_1]"

definition StateMachineHandler :: "sys \<Rightarrow> sys" where
  "StateMachineHandler s =
     (let s1 = s\<lparr>g_stateMachine := classify (g_distance s)\<rparr>
      in case g_stateMachine s1 of
           DANGER \<Rightarrow> handleDangerState s1
         | WARNING \<Rightarrow> handleWarningState s1
         | SAFE \<Rightarrow> handleSafeState s1
         | DETECTED \<Rightarrow> handleDetectedState s1
         | IDLE \<Rightarrow> handleIdleState s1)"

text \<open>One pass of the endless loop of \<^verbatim>\<open>main\<close>: measure, then classify and alert.\<close>

definition main_cycle :: "schedule \<Rightarrow> sys \<Rightarrow> sys option" where
  "main_cycle env s =
     (case Ultrasonic_readDistance env s of
        None \<Rightarrow> None
      | Some (d, s1) \<Rightarrow> Some (StateMachineHandler (s1\<lparr>g_distance := d\<rparr>)))"

text \<open>
  The state in which \<^verbatim>\<open>main\<close> enters its loop: the statics hold their initialisers,
  \<^verbatim>\<open>Ultrasonic_init\<close> has selected the rising edge, and \<^verbatim>\<open>main\<close> has switched the
  buzzer and the three indicators off.
\<close>

definition initial_state :: sys where
  "initial_state =
     \<lparr>g_timeHigh = 0, g_edgeCount = 0, g_readyFlag = 0,
      icu_timer = 0, icu_edge = RAISING, icu_int = False, trigger_pin = False,
      g_distance = 0, g_stateMachine = IDLE, lcd_text = [],
      led_red = False, led_green = False, led_blue = False, buzzer = False,
      timeline = [], trace = []\<rparr>"

section \<open>Auxiliary notions for the theorems\<close>

text \<open>
  \<open>poll_state env k s n\<close> is the state that the \<open>n\<close>-th poll of the busy-wait reads
  (polls counted from 0) when the loop is entered at statement \<open>k\<close> in state \<open>s\<close> and
  none of the earlier polls has ended it.
\<close>

fun poll_state :: "schedule \<Rightarrow> nat \<Rightarrow> sys \<Rightarrow> nat \<Rightarrow> sys" where
  "poll_state env k s 0 = hw_run (env k) s"
| "poll_state env k s (Suc n) =
     poll_state env (Suc k) (logged PollReady (hw_run (env k) s)) n"

text \<open>Schedules and states used as concrete examples.\<close>

definition quiet :: schedule where
  "quiet k = []"

definition echo_at :: "nat \<Rightarrow> nat \<Rightarrow> schedule" where
  "echo_at j n k =
     (if k = j then Edge RAISING # replicate n Tick @ [Edge FALLING] else [])"

definition late_edge :: schedule where
  "late_edge k =
     (if k = 4 then Edge RAISING # replicate 1170 Tick @ [Edge FALLING]
      else if k = 5 then [Edge RAISING]
      else [])"

definition lone_rising :: schedule where
  "lone_rising k = (if k = 4 then [Edge RAISING] else [Tick])"

definition noisy :: schedule where
  "noisy k =
     (if k = 4 then Edge RAISING # replicate 1170 Tick @ [Edge FALLING]
      else if k = 6 \<or> k = 7 then [Edge RAISING, Tick, Edge FALLING]
      else [])"

text \<open>
  The state a first measurement leaves behind under the schedule \<open>late_edge\<close>, in which
  the echo is followed by one more rising edge before the capture interrupt is disabled.
\<close>

definition after_late_edge :: sys where
  "after_late_edge =
     \<lparr>g_timeHigh = 1170, g_edgeCount = 1, g_readyFlag = 0,
      icu_timer = 0, icu_edge = FALLING, icu_int = False, trigger_pin = False,
      g_distance = 0, g_stateMachine = IDLE, lcd_text = [],
      led_red = False, led_green = False, led_blue = False, buzzer = False,
      timeline = [],
      trace = [TriggerHigh, DelayUs 10, TriggerLow, InterruptOn, Isr, Isr, PollReady, Isr,
               InterruptOff, ClearReady, ReadTimeHigh]\<rparr>"

text \<open>
  A state with a sample of 585 ticks captured and not yet consumed: the interrupt is
  enabled and one echo has been processed.
\<close>

definition unconsumed :: sys where
  "unconsumed =
     hw_run (Edge RAISING # replicate 585 Tick @ [Edge FALLING]) (enter_wait quiet initial_state)"





text \<open>The callback's phase agrees with the polarity the peripheral is set to detect.\<close>

definition in_phase :: "sys \<Rightarrow> bool" where
  "in_phase s =
     ((g_edgeCount s = 0 \<and> icu_edge s = RAISING) \<or>
      (g_edgeCount s = 1 \<and> icu_edge s = FALLING))"

text \<open>The actuator tuple: readout, R, G, B, buzzer.\<close>

definition outputs :: "sys \<Rightarrow> lcd_item list \<times> bool \<times> bool \<times> bool \<times> bool" where
  "outputs s = (lcd_text s, led_red s, led_green s, led_blue s, buzzer s)"

text \<open>
  \<open>grows_by B s s'\<close>: the trace of \<open>s'\<close> is the trace of \<open>s\<close> followed by actions of \<open>B\<close>
  only. It is used in the proofs about the order of statements.
\<close>

definition grows_by :: "action set \<Rightarrow> sys \<Rightarrow> sys \<Rightarrow> bool" where
  "grows_by B s s' = (\<exists>xs. trace s' = trace s @ xs \<and> set xs \<subseteq> B)"

section \<open>The bands as the specification words them\<close>

text \<open>
  The band table of the specification, read as conditions on a distance in centimetres:
  Danger up to 5, Warning 6 to 10, Safe 11 to 15, Detected 16 to 20, Idle above 20. This
  definition follows the specification's words, not the code; the code's cascade is
  \<open>classify\<close>.
\<close>

definition spec_band_condition :: "STATE_MACHINE \<Rightarrow> nat \<Rightarrow> bool" where
  "spec_band_condition b d =
     (case b of
        DANGER \<Rightarrow> d \<le> 5
      | WARNING \<Rightarrow> 6 \<le> d \<and> d \<le> 10
      | SAFE \<Rightarrow> 11 \<le> d \<and> d \<le> 15
      | DETECTED \<Rightarrow> 16 \<le> d \<and> d \<le> 20
      | IDLE \<Rightarrow> 20 < d)"

section \<open>The classifier\<close>

lemmas thresholds =
  DISTANCE_DANGER_def DISTANCE_WARNING_MAX_def DISTANCE_SAFE_MAX_def
  DISTANCE_DETECTED_MAX_def

lemma classify_unat:
  "classify d =
     (if unat d \<le> 5 then DANGER
      else if unat d \<le> 10 then WARNING
      else if unat d \<le> 15 then SAFE
      else if unat d \<le> 20 then DETECTED
      else IDLE)"
  by (simp add: classify_def thresholds word_le_nat_alt)

lemma spec_band_unique: "\<exists>!b. spec_band_condition b n"
proof -
  consider "n \<le> 5" | "6 \<le> n \<and> n \<le> 10" | "11 \<le> n \<and> n \<le> 15"
    | "16 \<le> n \<and> n \<le> 20" | "20 < n"
    by linarith
  then show ?thesis
  proof cases
    case 1
    then show ?thesis
      by (intro ex1I [of _ DANGER])
        (auto simp: spec_band_condition_def split: STATE_MACHINE.splits)
  next
    case 2
    then show ?thesis
      by (intro ex1I [of _ WARNING])
        (auto simp: spec_band_condition_def split: STATE_MACHINE.splits)
  next
    case 3
    then show ?thesis
      by (intro ex1I [of _ SAFE])
        (auto simp: spec_band_condition_def split: STATE_MACHINE.splits)
  next
    case 4
    then show ?thesis
      by (intro ex1I [of _ DETECTED])
        (auto simp: spec_band_condition_def split: STATE_MACHINE.splits)
  next
    case 5
    then show ?thesis
      by (intro ex1I [of _ IDLE])
        (auto simp: spec_band_condition_def split: STATE_MACHINE.splits)
  qed
qed

lemma classify_meets_spec: "(classify d = b) = spec_band_condition b (unat d)"
  by (cases b) (auto simp: classify_unat spec_band_condition_def)

text \<open>
  Claim C1. At every boundary of the band table the cascade of \<^verbatim>\<open>StateMachineHandler\<close>
  returns the band the specification names: 5 is Danger, 6 and 10 are Warning, 11 and 15
  are Safe, 16 and 20 are Detected, 21 is Idle.
\<close>

theorem classify_boundaries:
  "classify 5 = DANGER \<and> classify 6 = WARNING \<and> classify 10 = WARNING \<and>
   classify 11 = SAFE \<and> classify 15 = SAFE \<and> classify 16 = DETECTED \<and>
   classify 20 = DETECTED \<and> classify 21 = IDLE"
  by (simp add: classify_def thresholds)

text \<open>
  Claim C2. The five band conditions of the specification partition the non-negative
  integers: every \<open>n\<close> satisfies the condition of exactly one band. The cascade returns
  that band: for every distance \<open>d\<close> the code can hold, \<open>classify d\<close> is \<open>b\<close> exactly when
  the condition of \<open>b\<close> holds of \<open>d\<close>, so one band is returned and no other fits.
\<close>

theorem classify_partition:
  "(\<exists>!b. spec_band_condition b n) \<and>
   (classify d = b) = spec_band_condition b (unat d)"
  using spec_band_unique [of n] classify_meets_spec [of d b] by (rule conjI)

section \<open>Ticks to centimetres\<close>



section \<open>The capture callback\<close>

lemmas icu_defs =
  ICU_clearTimerValue_def ICU_getInputCaptureValue_def ICU_setEdgeDetectionType_def
  ICU_interruptOn_def ICU_interruptOff_def

lemmas fg_defs =
  logged_def delay_us_def GPIO_ARR_setPinState_def ICU_interruptOn_def ICU_interruptOff_def

lemma hw_run_append: "hw_run (xs @ ys) s = hw_run ys (hw_run xs s)"
  by (induction xs arbitrary: s) simp_all

lemma hw_run_ticks: "hw_run (replicate n Tick) s = s\<lparr>icu_timer := icu_timer s + of_nat n\<rparr>"
  by (induction n arbitrary: s) (simp_all add: hw_step_def add.assoc add.commute)

lemma edge_rising:
  "g_edgeCount s = 0 \<Longrightarrow>
   Ultrasonic_edgeProcessing s = s\<lparr>icu_timer := 0, icu_edge := FALLING, g_edgeCount := 1\<rparr>"
  by (simp add: Ultrasonic_edgeProcessing_def icu_defs)

lemma edge_falling:
  "g_edgeCount s = 1 \<Longrightarrow>
   Ultrasonic_edgeProcessing s =
     s\<lparr>g_timeHigh := icu_timer s, g_readyFlag := 1, icu_edge := RAISING, g_edgeCount := 0\<rparr>"
  by (simp add: Ultrasonic_edgeProcessing_def icu_defs LOGIC_HIGH_def)

lemma edge_pair:
  assumes "g_edgeCount s = 0"
  shows "Ultrasonic_edgeProcessing (hw_run (replicate n Tick) (Ultrasonic_edgeProcessing s)) =
     s\<lparr>g_timeHigh := of_nat n, g_readyFlag := 1, icu_timer := of_nat n,
       icu_edge := RAISING, g_edgeCount := 0\<rparr>"
  using assms by (simp add: edge_rising hw_run_ticks edge_falling)

lemma edge_trace [simp]: "trace (Ultrasonic_edgeProcessing s) = trace s"
  by (simp add: Ultrasonic_edgeProcessing_def Let_def icu_defs)

lemma edge_count_toggle:
  "g_edgeCount (Ultrasonic_edgeProcessing s) =
     (if g_edgeCount s = 0 then 1 else if g_edgeCount s = 1 then 0 else g_edgeCount s)"
  by (simp add: Ultrasonic_edgeProcessing_def Let_def icu_defs)

lemma hw_run_invariant:
  assumes "P s" and "\<And>e s. e \<in> A \<Longrightarrow> P s \<Longrightarrow> P (hw_step e s)" and "set evs \<subseteq> A"
  shows "P (hw_run evs s)"
  using assms by (induction evs arbitrary: s) auto

lemma hw_step_edgeCount:
  "g_edgeCount s = 0 \<or> g_edgeCount s = 1 \<Longrightarrow>
   g_edgeCount (hw_step e s) = 0 \<or> g_edgeCount (hw_step e s) = 1"
  by (cases e) (auto simp: hw_step_def edge_count_toggle logged_def)

lemma hw_run_edgeCount:
  "g_edgeCount s = 0 \<or> g_edgeCount s = 1 \<Longrightarrow>
   g_edgeCount (hw_run evs s) = 0 \<or> g_edgeCount (hw_run evs s) = 1"
  by (rule hw_run_invariant
        [where A = UNIV and P = "\<lambda>s. g_edgeCount s = 0 \<or> g_edgeCount s = 1"])
     (simp_all add: hw_step_edgeCount)

lemma hw_run_distance: "g_distance (hw_run evs s) = g_distance s"
proof -
  have "g_distance (hw_step e s1) = g_distance s1" for e s1
    by (cases e)
      (simp_all add: hw_step_def Ultrasonic_edgeProcessing_def Let_def icu_defs logged_def)
  then show ?thesis
    using hw_run_invariant
      [where A = UNIV and P = "\<lambda>s1. g_distance s1 = g_distance s" and s = s and evs = evs]
    by simp
qed

lemmas run_simps =
  enter_wait_def Ultrasonic_Trigger_def Let_def fg_defs hw_step_def hw_run_append
  hw_run_ticks Ultrasonic_edgeProcessing_def icu_defs LOGIC_HIGH_def LOGIC_LOW_def
  ticks_to_distance_def

lemma unconsumed_eval:
  "g_edgeCount unconsumed = 0 \<and> g_readyFlag unconsumed = 1 \<and> g_timeHigh unconsumed = 585"
  by (simp add: unconsumed_def quiet_def initial_state_def run_simps)

text \<open>
  Claim C4. Let the callback start in the phase that awaits the rising edge
  (\<open>g_edgeCount = 0\<close>) with the ready flag clear. After one call the flag is still clear
  and the phase awaits the falling edge. After a second call, \<open>n\<close> timer ticks later, the
  flag is set, \<open>g_timeHigh\<close> holds the \<open>n\<close> elapsed ticks (as a 16-bit count) and the
  phase awaits the rising edge again. So two calls set the flag exactly once, and one
  call alone does not set it.
\<close>

theorem edge_pair_completes_capture:
  assumes "g_edgeCount s = 0" and "g_readyFlag s = 0"
  shows "g_readyFlag (Ultrasonic_edgeProcessing s) = 0 \<and>
         g_edgeCount (Ultrasonic_edgeProcessing s) = 1 \<and>
         g_readyFlag (Ultrasonic_edgeProcessing
           (hw_run (replicate n Tick) (Ultrasonic_edgeProcessing s))) = 1 \<and>
         g_timeHigh (Ultrasonic_edgeProcessing
           (hw_run (replicate n Tick) (Ultrasonic_edgeProcessing s))) = of_nat n \<and>
         g_edgeCount (Ultrasonic_edgeProcessing
           (hw_run (replicate n Tick) (Ultrasonic_edgeProcessing s))) = 0"
  using assms by (simp add: edge_pair) (simp add: edge_rising)

theorem edge_pair_completes_capture_witness:
  "g_edgeCount initial_state = 0 \<and> g_readyFlag initial_state = 0 \<and>
   g_readyFlag (Ultrasonic_edgeProcessing initial_state) = 0 \<and>
   g_readyFlag (Ultrasonic_edgeProcessing
     (hw_run (replicate 1170 Tick) (Ultrasonic_edgeProcessing initial_state))) = 1 \<and>
   g_timeHigh (Ultrasonic_edgeProcessing
     (hw_run (replicate 1170 Tick) (Ultrasonic_edgeProcessing initial_state))) = 1170 \<and>
   g_edgeCount (Ultrasonic_edgeProcessing
     (hw_run (replicate 1170 Tick) (Ultrasonic_edgeProcessing initial_state))) = 0"
proof -
  have h: "g_edgeCount initial_state = 0" "g_readyFlag initial_state = 0"
    by (simp_all add: initial_state_def)
  from edge_pair_completes_capture [OF h, of 1170] h show ?thesis by simp
qed

text \<open>
  Claim C8. Let an edge pair reach the callback while the ready flag is still set from a
  sample nobody has consumed. The callback has no error path: it returns a state, in
  which \<open>g_timeHigh\<close> holds the new tick count whatever the stale one was, and the flag
  stays set. A value the foreground has already taken lives in \<open>g_distance\<close>, which
  neither the callback nor any sequence of hardware events changes.
\<close>

theorem double_pulse_overwrites:
  assumes "g_edgeCount s = 0" and "g_readyFlag s \<noteq> 0"
  shows "g_timeHigh (Ultrasonic_edgeProcessing
           (hw_run (replicate n Tick) (Ultrasonic_edgeProcessing s))) = of_nat n \<and>
         g_readyFlag (Ultrasonic_edgeProcessing
           (hw_run (replicate n Tick) (Ultrasonic_edgeProcessing s))) = 1 \<and>
         g_edgeCount (Ultrasonic_edgeProcessing
           (hw_run (replicate n Tick) (Ultrasonic_edgeProcessing s))) = 0 \<and>
         g_distance (Ultrasonic_edgeProcessing s) = g_distance s \<and>
         g_distance (hw_run evs s) = g_distance s"
  using assms by (simp add: edge_pair hw_run_distance) (simp add: edge_rising)

theorem double_pulse_overwrites_witness:
  "g_edgeCount unconsumed = 0 \<and> g_readyFlag unconsumed \<noteq> 0 \<and>
   g_timeHigh unconsumed = 585 \<and>
   g_timeHigh (Ultrasonic_edgeProcessing
     (hw_run (replicate 1170 Tick) (Ultrasonic_edgeProcessing unconsumed))) = 1170 \<and>
   g_readyFlag (Ultrasonic_edgeProcessing
     (hw_run (replicate 1170 Tick) (Ultrasonic_edgeProcessing unconsumed))) = 1"
proof -
  have h: "g_edgeCount unconsumed = 0" "g_readyFlag unconsumed \<noteq> 0"
    "g_timeHigh unconsumed = 585"
    using unconsumed_eval by simp_all
  from double_pulse_overwrites [OF h(1,2), of 1170 "[]"] h show ?thesis by simp
qed

section \<open>The alert handlers\<close>

lemmas out_defs =
  LCD_moveCursor_def LCD_displayString_def LCD_intgerToString_def LED_on_def LED_off_def
  Buzzer_on_def Buzzer_off_def delay_ms_def do_all_def LCD_dispDataNorm_def
  LCD_dispDataDanger_def

lemma warning_outputs:
  "outputs (handleWarningState s) =
     ([Text ''Distance= '', Number (g_distance s), Text ''cm''], True, True, True, False)"
  "timeline (handleWarningState s) = timeline s"
  by (simp_all add: handleWarningState_def outputs_def out_defs)

lemma safe_outputs:
  "outputs (handleSafeState s) =
     ([Text ''Distance= '', Number (g_distance s), Text ''cm''], True, True, False, False)"
  "timeline (handleSafeState s) = timeline s"
  by (simp_all add: handleSafeState_def outputs_def out_defs)

lemma detected_outputs:
  "outputs (handleDetectedState s) =
     ([Text ''Distance= '', Number (g_distance s), Text ''cm''], True, False, False, False)"
  "timeline (handleDetectedState s) = timeline s"
  by (simp_all add: handleDetectedState_def outputs_def out_defs)

lemma idle_outputs:
  "outputs (handleIdleState s) =
     ([Text ''Distance= '', Number (g_distance s), Text ''cm''], False, False, False, False)"
  "timeline (handleIdleState s) = timeline s"
  by (simp_all add: handleIdleState_def outputs_def out_defs)

lemma danger_outputs:
  "outputs (handleDangerState s) = ([Text ''      STOP      ''], False, False, False, False)"
  "timeline (handleDangerState s) =
     timeline s @ [(200, True, True, True, True), (200, False, False, False, False)]"
  by (simp_all add: handleDangerState_def outputs_def out_defs)

lemma handler_dispatch:
  "StateMachineHandler s =
     (case classify (g_distance s) of
        DANGER \<Rightarrow> handleDangerState
      | WARNING \<Rightarrow> handleWarningState
      | SAFE \<Rightarrow> handleSafeState
      | DETECTED \<Rightarrow> handleDetectedState
      | IDLE \<Rightarrow> handleIdleState) (s\<lparr>g_stateMachine := classify (g_distance s)\<rparr>)"
  by (simp add: StateMachineHandler_def Let_def split: STATE_MACHINE.split)

text \<open>
  Claim C6. Each band's handler leaves the actuators as the table of the specification
  says. Warning, Safe, Detected and Idle show the numeric distance with its unit, keep
  the buzzer off, switch the indicators to (on, on, on), (on, on, off), (on, off, off)
  and (off, off, off), and wait for nothing. Danger shows the fixed STOP text and goes
  through exactly two phases of 200 ms: all three indicators and the buzzer on, then all
  of them off, which is how it ends. \<^verbatim>\<open>StateMachineHandler\<close> calls the handler of the band
  that the cascade returns.
\<close>

theorem alert_outputs_per_band:
  "outputs (handleWarningState s) =
     ([Text ''Distance= '', Number (g_distance s), Text ''cm''], True, True, True, False) \<and>
   outputs (handleSafeState s) =
     ([Text ''Distance= '', Number (g_distance s), Text ''cm''], True, True, False, False) \<and>
   outputs (handleDetectedState s) =
     ([Text ''Distance= '', Number (g_distance s), Text ''cm''], True, False, False, False) \<and>
   outputs (handleIdleState s) =
     ([Text ''Distance= '', Number (g_distance s), Text ''cm''], False, False, False, False) \<and>
   timeline (handleWarningState s) = timeline s \<and>
   timeline (handleSafeState s) = timeline s \<and>
   timeline (handleDetectedState s) = timeline s \<and>
   timeline (handleIdleState s) = timeline s \<and>
   outputs (handleDangerState s) = ([Text ''      STOP      ''], False, False, False, False) \<and>
   timeline (handleDangerState s) =
     timeline s @ [(200, True, True, True, True), (200, False, False, False, False)] \<and>
   StateMachineHandler s =
     (case classify (g_distance s) of
        DANGER \<Rightarrow> handleDangerState
      | WARNING \<Rightarrow> handleWarningState
      | SAFE \<Rightarrow> handleSafeState
      | DETECTED \<Rightarrow> handleDetectedState
      | IDLE \<Rightarrow> handleIdleState) (s\<lparr>g_stateMachine := classify (g_distance s)\<rparr>)"
  using warning_outputs [of s] safe_outputs [of s] detected_outputs [of s] idle_outputs [of s]
    danger_outputs [of s] handler_dispatch [of s]
  by (intro conjI)

section \<open>The busy-wait\<close>

lemma wait_ready_exit:
  "g_readyFlag (poll_state env k s n) \<noteq> 0 \<Longrightarrow> \<exists>r. wait_ready env k s = Some r"
proof (induction n arbitrary: k s)
  case 0
  then show ?case by (subst wait_ready.simps) simp
next
  case (Suc n)
  show ?case
  proof (cases "g_readyFlag (hw_run (env k) s) \<noteq> 0")
    case True
    then show ?thesis by (subst wait_ready.simps) simp
  next
    case False
    from Suc.IH [of "Suc k" "logged PollReady (hw_run (env k) s)"] Suc.prems
    have "\<exists>r. wait_ready env (Suc k) (logged PollReady (hw_run (env k) s)) = Some r"
      by simp
    with False show ?thesis by (subst wait_ready.simps) simp
  qed
qed

lemma wait_ready_polls:
  assumes "wait_ready env k s = Some r"
  shows "\<exists>n. r = (Suc (k + n), logged PollReady (poll_state env k s n)) \<and>
       g_readyFlag (poll_state env k s n) \<noteq> 0"
proof (rule wait_ready.raw_induct
    [where P = "\<lambda>env k s r.
       \<exists>n. r = (Suc (k + n), logged PollReady (poll_state env k s n)) \<and>
           g_readyFlag (poll_state env k s n) \<noteq> 0", OF _ assms])
  fix loop :: "schedule \<Rightarrow> nat \<Rightarrow> sys \<Rightarrow> (nat \<times> sys) option" and env k s r
  assume IH: "\<And>env k s r. loop env k s = Some r \<Longrightarrow>
      \<exists>n. r = (Suc (k + n), logged PollReady (poll_state env k s n)) \<and>
       g_readyFlag (poll_state env k s n) \<noteq> 0"
    and body: "(if g_readyFlag (hw_run (env k) s) \<noteq> 0
      then Some (Suc k, logged PollReady (hw_run (env k) s))
      else loop env (Suc k) (logged PollReady (hw_run (env k) s))) = Some r"
  show "\<exists>n. r = (Suc (k + n), logged PollReady (poll_state env k s n)) \<and>
       g_readyFlag (poll_state env k s n) \<noteq> 0"
  proof (cases "g_readyFlag (hw_run (env k) s) \<noteq> 0")
    case True
    with body have "r = (Suc (k + 0), logged PollReady (poll_state env k s 0))" by auto
    with True show ?thesis by (intro exI [of _ 0]) simp
  next
    case False
    with body have "loop env (Suc k) (logged PollReady (hw_run (env k) s)) = Some r"
      by simp
    from IH [OF this] obtain n where
      "r = (Suc (Suc k + n),
            logged PollReady (poll_state env (Suc k) (logged PollReady (hw_run (env k) s)) n))"
      "g_readyFlag (poll_state env (Suc k) (logged PollReady (hw_run (env k) s)) n) \<noteq> 0"
      by blast
    then show ?thesis by (intro exI [of _ "Suc n"]) simp
  qed
qed

lemma wait_ready_iff:
  "(\<exists>r. wait_ready env k s = Some r) = (\<exists>n. g_readyFlag (poll_state env k s n) \<noteq> 0)"
  using wait_ready_exit wait_ready_polls by blast

lemma readDistance_iff:
  "(\<exists>r. Ultrasonic_readDistance env s = Some r) =
   (\<exists>n. g_readyFlag (poll_state env 4 (enter_wait env s) n) \<noteq> 0)"
  unfolding wait_ready_iff [symmetric]
  by (auto simp: Ultrasonic_readDistance_def Let_def split: option.splits prod.splits)

lemma poll_state_invariant:
  assumes "P s" and "\<And>e s. e \<in> A \<Longrightarrow> P s \<Longrightarrow> P (hw_step e s)"
    and "\<And>s. P s \<Longrightarrow> P (logged PollReady s)" and "\<And>k. set (env k) \<subseteq> A"
  shows "P (poll_state env k s n)"
  using assms(1)
proof (induction n arbitrary: k s)
  case 0
  then show ?case using hw_run_invariant [of P s A "env k"] assms(2,4) by simp
next
  case (Suc n)
  have "P (hw_run (env k) s)"
    using hw_run_invariant [of P s A "env k"] assms(2,4) Suc.prems by simp
  then have "P (logged PollReady (hw_run (env k) s))" by (rule assms(3))
  then show ?case using Suc.IH by simp
qed

lemma enter_wait_invariant:
  assumes "P s" and hw: "\<And>e s. e \<in> A \<Longrightarrow> P s \<Longrightarrow> P (hw_step e s)"
    and env: "\<And>k. set (env k) \<subseteq> A"
    and fg: "\<And>s a. P s \<Longrightarrow> P (logged a s)"
      "\<And>s v. P s \<Longrightarrow> P (GPIO_ARR_setPinState v s)"
      "\<And>s. P s \<Longrightarrow> P (ICU_interruptOn s)"
  shows "P (enter_wait env s)"
proof -
  have run: "P (hw_run (env k) s1)" if "P s1" for k s1
    using hw_run_invariant [of P s1 A "env k"] that hw env by simp
  show ?thesis
    unfolding enter_wait_def Ultrasonic_Trigger_def Let_def delay_us_def
    by (intro fg run assms(1))
qed

section \<open>While the capture interrupt is disabled\<close>

lemma hw_step_off: "\<not> icu_int s \<Longrightarrow> \<exists>t. hw_step e s = s\<lparr>icu_timer := t\<rparr>"
  by (cases e) (auto simp: hw_step_def intro: exI [of _ "icu_timer s"])

lemma hw_run_off: "\<not> icu_int s \<Longrightarrow> \<exists>t. hw_run evs s = s\<lparr>icu_timer := t\<rparr>"
proof (induction evs arbitrary: s)
  case Nil
  then show ?case by (auto intro: exI [of _ "icu_timer s"])
next
  case (Cons e evs)
  from hw_step_off [OF Cons.prems] obtain t where t: "hw_step e s = s\<lparr>icu_timer := t\<rparr>" ..
  with Cons.prems have "\<not> icu_int (hw_step e s)" by simp
  from Cons.IH [OF this] obtain t' where
    "hw_run evs (hw_step e s) = (hw_step e s)\<lparr>icu_timer := t'\<rparr>" ..
  with t show ?case by (auto intro: exI [of _ t'])
qed

lemma hw_run_off_fields:
  assumes "\<not> icu_int s"
  shows "icu_int (hw_run evs s) = False"
    and "trace (hw_run evs s) = trace s"
    and "g_edgeCount (hw_run evs s) = g_edgeCount s"
    and "g_readyFlag (hw_run evs s) = g_readyFlag s"
    and "g_timeHigh (hw_run evs s) = g_timeHigh s"
proof -
  obtain t where "hw_run evs s = s\<lparr>icu_timer := t\<rparr>"
    using hw_run_off [OF assms] by blast
  then show "icu_int (hw_run evs s) = False"
    and "trace (hw_run evs s) = trace s"
    and "g_edgeCount (hw_run evs s) = g_edgeCount s"
    and "g_readyFlag (hw_run evs s) = g_readyFlag s"
    and "g_timeHigh (hw_run evs s) = g_timeHigh s"
    using assms by simp_all
qed


section \<open>How the trace grows\<close>

lemma grows_by_refl: "grows_by B s s"
  by (simp add: grows_by_def)

lemma grows_by_mono: "grows_by B s s' \<Longrightarrow> B \<subseteq> C \<Longrightarrow> grows_by C s s'"
  by (auto simp: grows_by_def)

lemma grows_by_count: "grows_by B s s' \<Longrightarrow> count_list (trace s) a \<le> count_list (trace s') a"
  by (auto simp: grows_by_def)

lemma grows_by_logged: "a \<in> B \<Longrightarrow> grows_by B s s1 \<Longrightarrow> grows_by B s (logged a s1)"
  by (auto simp: grows_by_def logged_def)

lemma grows_by_hw_step: "Isr \<in> B \<Longrightarrow> grows_by B s s1 \<Longrightarrow> grows_by B s (hw_step e s1)"
  by (cases e) (auto simp: hw_step_def grows_by_def logged_def)

lemma grows_by_hw_run: "Isr \<in> B \<Longrightarrow> grows_by B s s1 \<Longrightarrow> grows_by B s (hw_run evs s1)"
  by (induction evs arbitrary: s1) (auto intro: grows_by_hw_step)

lemma grows_by_poll_state:
  "Isr \<in> B \<Longrightarrow> PollReady \<in> B \<Longrightarrow> grows_by B s s1 \<Longrightarrow>
   grows_by B s (poll_state env k s1 n)"
  by (induction n arbitrary: k s1) (auto intro: grows_by_hw_run grows_by_logged)

lemma grows_by_pin: "grows_by B s s1 \<Longrightarrow> grows_by B s (GPIO_ARR_setPinState v s1)"
  by (simp add: grows_by_def GPIO_ARR_setPinState_def)

lemma grows_by_int_on: "grows_by B s s1 \<Longrightarrow> grows_by B s (ICU_interruptOn s1)"
  by (simp add: grows_by_def ICU_interruptOn_def)

lemma grows_by_delay_us:
  "DelayUs n \<in> B \<Longrightarrow> grows_by B s s1 \<Longrightarrow> grows_by B s (delay_us n s1)"
  by (simp add: delay_us_def grows_by_logged)

lemma grows_by_enter_wait:
  "grows_by {TriggerHigh, DelayUs 10, TriggerLow, InterruptOn, Isr} s (enter_wait env s)"
  unfolding enter_wait_def Ultrasonic_Trigger_def Let_def
  by (intro grows_by_int_on grows_by_pin grows_by_delay_us grows_by_logged grows_by_hw_run
        grows_by_refl) simp_all

lemma grows_by_before_off:
  "grows_by {TriggerHigh, DelayUs 10, TriggerLow, InterruptOn, PollReady, Isr} s
     (hw_run evs (logged PollReady (poll_state env 4 (enter_wait env s) n)))"
proof -
  let ?B = "{TriggerHigh, DelayUs 10, TriggerLow, InterruptOn, PollReady, Isr}"
  have "grows_by ?B s (enter_wait env s)"
    by (rule grows_by_mono [OF grows_by_enter_wait]) auto
  then show ?thesis
    by (intro grows_by_hw_run grows_by_logged grows_by_poll_state) simp_all
qed

section \<open>A measurement that returns\<close>

lemma readDistance_Some:
  assumes "Ultrasonic_readDistance env s = Some (d, s')"
  shows "\<exists>n. g_readyFlag (poll_state env 4 (enter_wait env s) n) \<noteq> 0 \<and>
      wait_ready env 4 (enter_wait env s) =
        Some (n + 5, logged PollReady (poll_state env 4 (enter_wait env s) n)) \<and>
      s' = logged ReadTimeHigh (hw_run (env (n + 7))
             ((logged ClearReady (hw_run (env (n + 6))
                (ICU_interruptOff (logged InterruptOff (hw_run (env (n + 5))
                   (logged PollReady (poll_state env 4 (enter_wait env s) n)))))))
              \<lparr>g_readyFlag := LOGIC_LOW\<rparr>)) \<and>
      d = ticks_to_distance (g_timeHigh s')"
proof -
  from assms obtain r where r: "wait_ready env 4 (enter_wait env s) = Some r"
    by (auto simp: Ultrasonic_readDistance_def split: option.splits)
  from wait_ready_polls [OF r] obtain n where
    n: "r = (Suc (4 + n), logged PollReady (poll_state env 4 (enter_wait env s) n))"
    and ready: "g_readyFlag (poll_state env 4 (enter_wait env s) n) \<noteq> 0" by blast
  have k: "Suc (4 + n) = n + 5" "Suc (Suc (4 + n)) = n + 6" "Suc (Suc (Suc (4 + n))) = n + 7"
    by simp_all
  from assms r n have "s' = logged ReadTimeHigh (hw_run (env (n + 7))
             ((logged ClearReady (hw_run (env (n + 6))
                (ICU_interruptOff (logged InterruptOff (hw_run (env (n + 5))
                   (logged PollReady (poll_state env 4 (enter_wait env s) n)))))))
              \<lparr>g_readyFlag := LOGIC_LOW\<rparr>))"
    and "d = ticks_to_distance (g_timeHigh s')"
    by (auto simp: Ultrasonic_readDistance_def Let_def k add.commute)
  with ready r n k show ?thesis by auto
qed

lemma readDistance_end:
  assumes "Ultrasonic_readDistance env s = Some (d, s')"
  shows "\<exists>n q.
           q = hw_run (env (n + 5)) (logged PollReady (poll_state env 4 (enter_wait env s) n)) \<and>
           g_readyFlag (poll_state env 4 (enter_wait env s) n) \<noteq> 0 \<and>
           wait_ready env 4 (enter_wait env s) =
             Some (n + 5, logged PollReady (poll_state env 4 (enter_wait env s) n)) \<and>
           trace s' = trace q @ [InterruptOff, ClearReady, ReadTimeHigh] \<and>
           g_timeHigh s' = g_timeHigh q \<and>
           g_edgeCount s' = g_edgeCount q \<and>
           g_readyFlag s' = 0 \<and> \<not> icu_int s' \<and>
           d = ticks_to_distance (g_timeHigh q)"
proof -
  from readDistance_Some [OF assms] obtain n where
    ready: "g_readyFlag (poll_state env 4 (enter_wait env s) n) \<noteq> 0"
    and w: "wait_ready env 4 (enter_wait env s) =
        Some (n + 5, logged PollReady (poll_state env 4 (enter_wait env s) n))"
    and s': "s' = logged ReadTimeHigh (hw_run (env (n + 7))
             ((logged ClearReady (hw_run (env (n + 6))
                (ICU_interruptOff (logged InterruptOff (hw_run (env (n + 5))
                   (logged PollReady (poll_state env 4 (enter_wait env s) n)))))))
              \<lparr>g_readyFlag := LOGIC_LOW\<rparr>))"
    and d: "d = ticks_to_distance (g_timeHigh s')" by blast
  define q where
    "q = hw_run (env (n + 5)) (logged PollReady (poll_state env 4 (enter_wait env s) n))"
  define off where "off = ICU_interruptOff (logged InterruptOff q)"
  define clr where
    "clr = (logged ClearReady (hw_run (env (n + 6)) off))\<lparr>g_readyFlag := LOGIC_LOW\<rparr>"
  have s'_eq: "s' = logged ReadTimeHigh (hw_run (env (n + 7)) clr)"
    by (simp add: s' clr_def off_def q_def)
  have off_int: "\<not> icu_int off" by (simp add: off_def ICU_interruptOff_def)
  have clr_int: "\<not> icu_int clr"
    by (simp add: clr_def logged_def hw_run_off_fields [OF off_int])
  have off_fields: "trace off = trace q @ [InterruptOff]" "g_timeHigh off = g_timeHigh q"
    "g_edgeCount off = g_edgeCount q"
    by (simp_all add: off_def ICU_interruptOff_def logged_def)
  have clr_fields: "trace clr = trace q @ [InterruptOff, ClearReady]"
    "g_timeHigh clr = g_timeHigh q" "g_edgeCount clr = g_edgeCount q" "g_readyFlag clr = 0"
    by (simp_all add: clr_def logged_def LOGIC_LOW_def hw_run_off_fields [OF off_int]
        off_fields)
  have fin: "trace s' = trace q @ [InterruptOff, ClearReady, ReadTimeHigh]"
    "g_timeHigh s' = g_timeHigh q" "g_edgeCount s' = g_edgeCount q" "g_readyFlag s' = 0"
    "\<not> icu_int s'"
    by (simp_all add: s'_eq logged_def hw_run_off_fields [OF clr_int] clr_fields)
  show ?thesis using ready w fin d q_def
    by (intro exI [of _ n] exI [of _ q]) simp
qed

section \<open>Concrete runs\<close>

lemma late_edge_run:
  "Ultrasonic_readDistance late_edge initial_state = Some (10, after_late_edge)"
  apply (simp add: Ultrasonic_readDistance_def)
  apply (subst wait_ready.simps)
  apply (simp add: late_edge_def initial_state_def after_late_edge_def run_simps)
  done


lemma noisy_wait: "\<exists>s1. wait_ready noisy 4 (enter_wait noisy initial_state) = Some (5, s1)"
  apply (subst wait_ready.simps)
  apply (simp add: noisy_def initial_state_def run_simps)
  done

lemma noisy_agree: "map (echo_at 4 1170) [0..<6] = map noisy [0..<6]"
  by (simp add: echo_at_def noisy_def upt_rec)

lemma noisy_agree_all: "\<forall>j\<le>5. echo_at 4 1170 j = noisy j"
  by (simp add: echo_at_def noisy_def)

lemma noisy_final:
  "map_option (\<lambda>r. g_timeHigh (snd r)) (Ultrasonic_readDistance noisy initial_state) =
   Some 1170"
  apply (simp add: Ultrasonic_readDistance_def)
  apply (subst wait_ready.simps)
  apply (simp add: noisy_def initial_state_def run_simps)
  done

lemma noisy_distance:
  "map_option fst (Ultrasonic_readDistance noisy initial_state) = Some 10"
  apply (simp add: Ultrasonic_readDistance_def)
  apply (subst wait_ready.simps)
  apply (simp add: noisy_def initial_state_def run_simps)
  done

lemma noisy_run: "\<exists>s'. Ultrasonic_readDistance noisy initial_state = Some (10, s')"
  using noisy_distance by (cases "Ultrasonic_readDistance noisy initial_state") auto

lemma echo_distance:
  "map_option fst (Ultrasonic_readDistance (echo_at 4 1170) initial_state) = Some 10"
  apply (simp add: Ultrasonic_readDistance_def)
  apply (subst wait_ready.simps)
  apply (simp add: echo_at_def initial_state_def run_simps)
  done

lemma echo_run: "\<exists>s'. Ultrasonic_readDistance (echo_at 4 1170) initial_state = Some (10, s')"
  using echo_distance
  by (cases "Ultrasonic_readDistance (echo_at 4 1170) initial_state") auto

section \<open>The two-valued edge count\<close>

lemma poll_state_edgeCount:
  "g_edgeCount s = 0 \<or> g_edgeCount s = 1 \<Longrightarrow>
   g_edgeCount (poll_state env k s n) = 0 \<or> g_edgeCount (poll_state env k s n) = 1"
  by (rule poll_state_invariant
        [where A = UNIV and P = "\<lambda>s. g_edgeCount s = 0 \<or> g_edgeCount s = 1"])
     (simp_all add: hw_step_edgeCount logged_def)

lemma enter_wait_edgeCount:
  "g_edgeCount s = 0 \<or> g_edgeCount s = 1 \<Longrightarrow>
   g_edgeCount (enter_wait env s) = 0 \<or> g_edgeCount (enter_wait env s) = 1"
  by (rule enter_wait_invariant
        [where A = UNIV and P = "\<lambda>s. g_edgeCount s = 0 \<or> g_edgeCount s = 1"])
     (simp_all add: hw_step_edgeCount fg_defs)

lemma readDistance_edgeCount:
  assumes "g_edgeCount s = 0 \<or> g_edgeCount s = 1"
    and "Ultrasonic_readDistance env s = Some (d, s')"
  shows "g_edgeCount s' = 0 \<or> g_edgeCount s' = 1"
proof -
  from readDistance_end [OF assms(2)] obtain n where
    e: "g_edgeCount s' =
        g_edgeCount (hw_run (env (n + 5))
          (logged PollReady (poll_state env 4 (enter_wait env s) n)))"
    by auto
  have "g_edgeCount (poll_state env 4 (enter_wait env s) n) = 0 \<or>
        g_edgeCount (poll_state env 4 (enter_wait env s) n) = 1"
    by (intro poll_state_edgeCount enter_wait_edgeCount assms(1))
  then have "g_edgeCount (logged PollReady (poll_state env 4 (enter_wait env s) n)) = 0 \<or>
        g_edgeCount (logged PollReady (poll_state env 4 (enter_wait env s) n)) = 1"
    by (simp add: logged_def)
  from hw_run_edgeCount [OF this] e show ?thesis by simp
qed

text \<open>
  Claim C10. Once \<open>g_edgeCount\<close> is 0 or 1, as it is initially, it stays 0 or 1: the
  callback turns 0 into 1 and 1 into 0, any sequence of hardware events (ticks and
  edges, delivered or not) keeps it in that range, and so does a whole measurement,
  whose foreground statements never write it.
\<close>

theorem edgeCount_two_valued:
  assumes "g_edgeCount s = 0 \<or> g_edgeCount s = 1"
  shows "g_edgeCount (Ultrasonic_edgeProcessing s) = (if g_edgeCount s = 0 then 1 else 0) \<and>
         (g_edgeCount (hw_run evs s) = 0 \<or> g_edgeCount (hw_run evs s) = 1) \<and>
         (Ultrasonic_readDistance env s = Some (d, s') \<longrightarrow>
            g_edgeCount s' = 0 \<or> g_edgeCount s' = 1)"
  using assms hw_run_edgeCount [OF assms, of evs]
    readDistance_edgeCount [OF assms, of env d s']
  by (auto simp: edge_count_toggle)

theorem edgeCount_two_valued_witness:
  "g_edgeCount initial_state = 0 \<and>
   g_edgeCount (Ultrasonic_edgeProcessing initial_state) = 1 \<and>
   g_edgeCount (ICU_interruptOn initial_state) = 0 \<and>
   g_edgeCount (hw_run [Edge RAISING, Tick, Edge FALLING, Edge RAISING]
     (ICU_interruptOn initial_state)) = 1 \<and>
   Ultrasonic_readDistance late_edge initial_state = Some (10, after_late_edge) \<and>
   g_edgeCount after_late_edge = 1"
proof -
  have h: "g_edgeCount initial_state = 0 \<or> g_edgeCount initial_state = 1"
    by (simp add: initial_state_def)
  have j: "g_edgeCount (ICU_interruptOn initial_state) = 0 \<or>
      g_edgeCount (ICU_interruptOn initial_state) = 1"
    by (simp add: initial_state_def ICU_interruptOn_def)
  have r: "g_edgeCount (hw_run [Edge RAISING, Tick, Edge FALLING, Edge RAISING]
      (ICU_interruptOn initial_state)) \<noteq> 0"
    by (simp add: initial_state_def run_simps)
  from edgeCount_two_valued [OF h, of "[]" late_edge 10 after_late_edge]
    edgeCount_two_valued [OF j, of "[Edge RAISING, Tick, Edge FALLING, Edge RAISING]"]
    late_edge_run r
  show ?thesis by (simp add: initial_state_def after_late_edge_def ICU_interruptOn_def)
qed

section \<open>The schedule after the loop exit\<close>

lemma wait_ready_cong:
  assumes "wait_ready env k s = Some r"
  shows "k < fst r \<and> (\<forall>env'. (\<forall>j. k \<le> j \<and> j < fst r \<longrightarrow> env' j = env j) \<longrightarrow>
           wait_ready env' k s = Some r)"
proof (rule wait_ready.raw_induct
    [where P = "\<lambda>env k s r. k < fst r \<and>
       (\<forall>env'. (\<forall>j. k \<le> j \<and> j < fst r \<longrightarrow> env' j = env j) \<longrightarrow>
           wait_ready env' k s = Some r)", OF _ assms])
  fix loop :: "schedule \<Rightarrow> nat \<Rightarrow> sys \<Rightarrow> (nat \<times> sys) option" and env k s r
  assume IH: "\<And>env k s r. loop env k s = Some r \<Longrightarrow>
      k < fst r \<and> (\<forall>env'. (\<forall>j. k \<le> j \<and> j < fst r \<longrightarrow> env' j = env j) \<longrightarrow>
           wait_ready env' k s = Some r)"
    and body: "(if g_readyFlag (hw_run (env k) s) \<noteq> 0
      then Some (Suc k, logged PollReady (hw_run (env k) s))
      else loop env (Suc k) (logged PollReady (hw_run (env k) s))) = Some r"
  show "k < fst r \<and> (\<forall>env'. (\<forall>j. k \<le> j \<and> j < fst r \<longrightarrow> env' j = env j) \<longrightarrow>
           wait_ready env' k s = Some r)"
  proof (cases "g_readyFlag (hw_run (env k) s) \<noteq> 0")
    case True
    with body have r: "r = (Suc k, logged PollReady (hw_run (env k) s))" by auto
    have "wait_ready env' k s = Some r"
      if "\<forall>j. k \<le> j \<and> j < fst r \<longrightarrow> env' j = env j" for env'
    proof -
      from that r have "env' k = env k" by simp
      with True r show ?thesis by (subst wait_ready.simps) simp
    qed
    with r show ?thesis by simp
  next
    case False
    with body have "loop env (Suc k) (logged PollReady (hw_run (env k) s)) = Some r"
      by simp
    from IH [OF this] have lt: "Suc k < fst r"
      and ih: "\<And>env'. (\<forall>j. Suc k \<le> j \<and> j < fst r \<longrightarrow> env' j = env j) \<Longrightarrow>
        wait_ready env' (Suc k) (logged PollReady (hw_run (env k) s)) = Some r"
      by auto
    have "wait_ready env' k s = Some r"
      if a: "\<forall>j. k \<le> j \<and> j < fst r \<longrightarrow> env' j = env j" for env'
    proof -
      from a lt have e: "env' k = env k" by simp
      from a have "\<forall>j. Suc k \<le> j \<and> j < fst r \<longrightarrow> env' j = env j" by simp
      from ih [OF this] False e show ?thesis by (subst wait_ready.simps) simp
    qed
    with lt show ?thesis by simp
  qed
qed

lemma enter_wait_cong: "(\<forall>j\<le>3. env' j = env j) \<Longrightarrow> enter_wait env' s = enter_wait env s"
  by (simp add: enter_wait_def Ultrasonic_Trigger_def)

lemma after_off:
  assumes "\<not> icu_int off"
  shows "\<exists>t. logged ReadTimeHigh (hw_run e7
            ((logged ClearReady (hw_run e6 off))\<lparr>g_readyFlag := LOGIC_LOW\<rparr>)) =
          off\<lparr>g_readyFlag := 0, icu_timer := t,
              trace := trace off @ [ClearReady, ReadTimeHigh]\<rparr>"
proof -
  from hw_run_off [OF assms] obtain t6 where t6: "hw_run e6 off = off\<lparr>icu_timer := t6\<rparr>" ..
  define clr where
    "clr = (logged ClearReady (off\<lparr>icu_timer := t6\<rparr>))\<lparr>g_readyFlag := LOGIC_LOW\<rparr>"
  have "\<not> icu_int clr" using assms by (simp add: clr_def logged_def)
  from hw_run_off [OF this] obtain t7 where t7: "hw_run e7 clr = clr\<lparr>icu_timer := t7\<rparr>" ..
  show ?thesis
    by (rule exI [of _ t7])
      (simp add: t6 t7 clr_def [symmetric], simp add: clr_def logged_def LOGIC_LOW_def)
qed

lemma readDistance_after_disable:
  assumes "Ultrasonic_readDistance env s = Some (d, s')"
  shows "\<exists>k s1 s2 s3 t.
     wait_ready env 4 (enter_wait env s) = Some (k, s1) \<and> 5 \<le> k \<and>
     s2 = ICU_interruptOff (logged InterruptOff (hw_run (env k) s1)) \<and>
     s3 = (logged ClearReady (hw_run (env (k + 1)) s2))\<lparr>g_readyFlag := LOGIC_LOW\<rparr> \<and>
     s' = logged ReadTimeHigh (hw_run (env (k + 2)) s3) \<and>
     \<not> icu_int s2 \<and>
     s' = s2\<lparr>g_readyFlag := 0, icu_timer := t,
            trace := trace s2 @ [ClearReady, ReadTimeHigh]\<rparr> \<and>
     d = ticks_to_distance (g_timeHigh s2)"
proof -
  from readDistance_Some [OF assms] obtain n where
    w: "wait_ready env 4 (enter_wait env s) =
        Some (n + 5, logged PollReady (poll_state env 4 (enter_wait env s) n))"
    and s': "s' = logged ReadTimeHigh (hw_run (env (n + 7))
             ((logged ClearReady (hw_run (env (n + 6))
                (ICU_interruptOff (logged InterruptOff (hw_run (env (n + 5))
                   (logged PollReady (poll_state env 4 (enter_wait env s) n)))))))
              \<lparr>g_readyFlag := LOGIC_LOW\<rparr>))"
    and d: "d = ticks_to_distance (g_timeHigh s')" by blast
  define s1 where "s1 = logged PollReady (poll_state env 4 (enter_wait env s) n)"
  define s2 where "s2 = ICU_interruptOff (logged InterruptOff (hw_run (env (n + 5)) s1))"
  define s3 where
    "s3 = (logged ClearReady (hw_run (env (n + 5 + 1)) s2))\<lparr>g_readyFlag := LOGIC_LOW\<rparr>"
  have off: "\<not> icu_int s2" by (simp add: s2_def ICU_interruptOff_def)
  have e: "n + 5 + 1 = n + 6" "n + 5 + 2 = n + 7" by simp_all
  have s'_eq: "s' = logged ReadTimeHigh (hw_run (env (n + 5 + 2)) s3)"
    unfolding s' s3_def s2_def s1_def e ..
  from after_off [OF off, of "env (n + 5 + 2)" "env (n + 5 + 1)"] obtain t where
    t: "s' = s2\<lparr>g_readyFlag := 0, icu_timer := t,
              trace := trace s2 @ [ClearReady, ReadTimeHigh]\<rparr>"
    unfolding s'_eq s3_def by blast
  have "d = ticks_to_distance (g_timeHigh s2)" using d t by simp
  with w off t s'_eq show ?thesis
    unfolding s1_def [symmetric]
    by (intro exI [of _ "n + 5"] exI [of _ s1] exI [of _ s2] exI [of _ s3] exI [of _ t])
      (simp add: s2_def s3_def)
qed

lemma readDistance_schedule_after_disable:
  assumes run: "Ultrasonic_readDistance env s = Some (d, s')"
    and w: "wait_ready env 4 (enter_wait env s) = Some (k, s1)"
    and agree: "\<forall>j\<le>k. env' j = env j"
  shows "\<exists>s''. Ultrasonic_readDistance env' s = Some (d, s'') \<and>
           s''\<lparr>icu_timer := icu_timer s'\<rparr> = s'"
proof -
  from readDistance_after_disable [OF run] w obtain s2 t where
    k5: "5 \<le> k"
    and s2: "s2 = ICU_interruptOff (logged InterruptOff (hw_run (env k) s1))"
    and off: "\<not> icu_int s2"
    and s': "s' = s2\<lparr>g_readyFlag := 0, icu_timer := t,
               trace := trace s2 @ [ClearReady, ReadTimeHigh]\<rparr>"
    and d: "d = ticks_to_distance (g_timeHigh s2)"
    by auto
  from agree k5 have "\<forall>j\<le>3. env' j = env j" by simp
  then have ew: "enter_wait env' s = enter_wait env s" by (rule enter_wait_cong)
  from wait_ready_cong [OF w] agree
  have w': "wait_ready env' 4 (enter_wait env s) = Some (k, s1)" by simp
  from agree have ek: "env' k = env k" by simp
  from after_off [OF off, of "env' (k + 2)" "env' (k + 1)"] obtain t' where
    t': "logged ReadTimeHigh (hw_run (env' (k + 2))
            ((logged ClearReady (hw_run (env' (k + 1)) s2))\<lparr>g_readyFlag := LOGIC_LOW\<rparr>)) =
          s2\<lparr>g_readyFlag := 0, icu_timer := t',
             trace := trace s2 @ [ClearReady, ReadTimeHigh]\<rparr>"
    by blast
  have "Ultrasonic_readDistance env' s =
      Some (d, s2\<lparr>g_readyFlag := 0, icu_timer := t',
                 trace := trace s2 @ [ClearReady, ReadTimeHigh]\<rparr>)"
    unfolding Ultrasonic_readDistance_def ew w' using t'
    by (simp add: Let_def ek s2 [symmetric] d)
  then show ?thesis by (simp add: s')
qed

lemma trace_ends_disable_clear_read:
  assumes "Ultrasonic_readDistance env s = Some (d, s')"
  shows "\<exists>pre.
           trace s' = trace s @ pre @ [InterruptOff, ClearReady, ReadTimeHigh] \<and>
           set pre \<subseteq> {TriggerHigh, DelayUs 10, TriggerLow, InterruptOn, PollReady, Isr}"
proof -
  from readDistance_end [OF assms] obtain n q where
    q: "q = hw_run (env (n + 5)) (logged PollReady (poll_state env 4 (enter_wait env s) n))"
    and tr: "trace s' = trace q @ [InterruptOff, ClearReady, ReadTimeHigh]"
    by blast
  from grows_by_before_off [of s "env (n + 5)" env n] q obtain pre where
    "trace q = trace s @ pre"
    "set pre \<subseteq> {TriggerHigh, DelayUs 10, TriggerLow, InterruptOn, PollReady, Isr}"
    by (auto simp: grows_by_def)
  with tr show ?thesis by (intro exI [of _ pre]) simp
qed

section \<open>The order of the foreground statements\<close>

text \<open>
  Claim C9. Every measurement that returns ends with three statements in this order:
  \<open>s2\<close> is the state in which \<^verbatim>\<open>ICU_interruptOff\<close> has just run, \<open>s3\<close> the state in which
  the ready flag has just been cleared, and the final state is the one in which
  \<open>g_timeHigh\<close> has been read. The capture interrupt is disabled in \<open>s2\<close>, at the moment
  the flag is cleared, in \<open>s3\<close>, at the moment the tick count is read, and on return. The
  tick count read is the one held when the interrupt was disabled, the flag is clear on
  return, and no callback run is traced after the disabling. Whatever the hardware does
  after the disabling has no effect but on the timer: a schedule that agrees with the
  given one up to the disabling statement yields the same distance and the same final
  state up to \<open>icu_timer\<close>.
\<close>

theorem interrupt_off_before_clear_and_read:
  assumes "Ultrasonic_readDistance env s = Some (d, s')"
  shows "\<exists>pre k s1 s2 s3.
     wait_ready env 4 (enter_wait env s) = Some (k, s1) \<and>
     s2 = ICU_interruptOff (logged InterruptOff (hw_run (env k) s1)) \<and>
     s3 = (logged ClearReady (hw_run (env (k + 1)) s2))\<lparr>g_readyFlag := LOGIC_LOW\<rparr> \<and>
     s' = logged ReadTimeHigh (hw_run (env (k + 2)) s3) \<and>
     \<not> icu_int s2 \<and> \<not> icu_int (hw_run (env (k + 1)) s2) \<and>
     \<not> icu_int s3 \<and> \<not> icu_int (hw_run (env (k + 2)) s3) \<and> \<not> icu_int s' \<and>
     g_timeHigh (hw_run (env (k + 2)) s3) = g_timeHigh (hw_run (env k) s1) \<and>
     g_timeHigh s' = g_timeHigh (hw_run (env k) s1) \<and>
     g_readyFlag s' = 0 \<and>
     d = ticks_to_distance (g_timeHigh (hw_run (env k) s1)) \<and>
     trace s' = trace s @ pre @ [InterruptOff, ClearReady, ReadTimeHigh] \<and>
     set pre \<subseteq> {TriggerHigh, DelayUs 10, TriggerLow, InterruptOn, PollReady, Isr} \<and>
     (\<forall>env'. (\<forall>j\<le>k. env' j = env j) \<longrightarrow>
        (\<exists>s''. Ultrasonic_readDistance env' s = Some (d, s'') \<and>
               s''\<lparr>icu_timer := icu_timer s'\<rparr> = s'))"
proof -
  from readDistance_after_disable [OF assms] obtain k s1 s2 s3 t where
    w: "wait_ready env 4 (enter_wait env s) = Some (k, s1)"
    and s2: "s2 = ICU_interruptOff (logged InterruptOff (hw_run (env k) s1))"
    and s3: "s3 = (logged ClearReady (hw_run (env (k + 1)) s2))\<lparr>g_readyFlag := LOGIC_LOW\<rparr>"
    and s': "s' = logged ReadTimeHigh (hw_run (env (k + 2)) s3)"
    and off: "\<not> icu_int s2"
    and t: "s' = s2\<lparr>g_readyFlag := 0, icu_timer := t,
              trace := trace s2 @ [ClearReady, ReadTimeHigh]\<rparr>"
    and d: "d = ticks_to_distance (g_timeHigh s2)"
    by blast
  have off3: "\<not> icu_int s3" by (simp add: s3 logged_def hw_run_off_fields [OF off])
  have i: "\<not> icu_int (hw_run (env (k + 1)) s2)" "\<not> icu_int (hw_run (env (k + 2)) s3)"
    "\<not> icu_int s'"
    using off hw_run_off_fields(1) [OF off, of "env (k + 1)"]
      hw_run_off_fields(1) [OF off3, of "env (k + 2)"]
    by (simp_all add: t)
  have g2: "g_timeHigh s2 = g_timeHigh (hw_run (env k) s1)"
    by (simp add: s2 ICU_interruptOff_def logged_def)
  have g3: "g_timeHigh s3 = g_timeHigh s2"
    by (simp add: s3 logged_def hw_run_off_fields [OF off])
  have "g_timeHigh (hw_run (env (k + 2)) s3) = g_timeHigh s3"
    by (rule hw_run_off_fields(5) [OF off3])
  with g3 g2 have g: "g_timeHigh (hw_run (env (k + 2)) s3) = g_timeHigh (hw_run (env k) s1)"
    "g_timeHigh s' = g_timeHigh (hw_run (env k) s1)" "g_readyFlag s' = 0"
    by (simp_all add: t)
  from trace_ends_disable_clear_read [OF assms] obtain pre where
    pre: "trace s' = trace s @ pre @ [InterruptOff, ClearReady, ReadTimeHigh]"
      "set pre \<subseteq> {TriggerHigh, DelayUs 10, TriggerLow, InterruptOn, PollReady, Isr}"
    by blast
  have ni: "\<forall>env'. (\<forall>j\<le>k. env' j = env j) \<longrightarrow>
        (\<exists>s''. Ultrasonic_readDistance env' s = Some (d, s'') \<and>
               s''\<lparr>icu_timer := icu_timer s'\<rparr> = s')"
    using readDistance_schedule_after_disable [OF assms w] by blast
  show ?thesis
    using w s2 s3 s' off off3 i g d g2 pre ni
    by (intro exI [of _ pre] exI [of _ k] exI [of _ s1] exI [of _ s2] exI [of _ s3]) simp
qed

theorem interrupt_off_before_clear_and_read_witness:
  "\<exists>s' s''. Ultrasonic_readDistance noisy initial_state = Some (10, s') \<and>
     map (echo_at 4 1170) [0..<6] = map noisy [0..<6] \<and>
     Ultrasonic_readDistance (echo_at 4 1170) initial_state = Some (10, s'') \<and>
     s''\<lparr>icu_timer := icu_timer s'\<rparr> = s' \<and>
     \<not> icu_int s' \<and> g_readyFlag s' = 0 \<and> g_timeHigh s' = 1170"
proof -
  from noisy_run obtain s' where
    run: "Ultrasonic_readDistance noisy initial_state = Some (10, s')" ..
  from interrupt_off_before_clear_and_read [OF run] obtain k s1 where
    w: "wait_ready noisy 4 (enter_wait noisy initial_state) = Some (k, s1)"
    and f: "\<not> icu_int s'" "g_readyFlag s' = 0"
    and ni: "\<forall>env'. (\<forall>j\<le>k. env' j = noisy j) \<longrightarrow>
        (\<exists>s''. Ultrasonic_readDistance env' initial_state = Some (10, s'') \<and>
               s''\<lparr>icu_timer := icu_timer s'\<rparr> = s')"
    by blast
  from w noisy_wait have "k = 5" by auto
  with ni noisy_agree_all obtain s'' where
    e: "Ultrasonic_readDistance (echo_at 4 1170) initial_state = Some (10, s'')"
      "s''\<lparr>icu_timer := icu_timer s'\<rparr> = s'" by blast
  from run noisy_final have "g_timeHigh s' = 1170" by simp
  with run f noisy_agree e show ?thesis by blast
qed

section \<open>No arming at the start of a measurement\<close>














section \<open>The measurement has no timeout\<close>

lemma hw_step_blocked:
  assumes "e \<noteq> Edge FALLING"
    and "g_readyFlag s = 0 \<and> (g_edgeCount s = 1 \<longrightarrow> icu_edge s = FALLING)"
  shows "g_readyFlag (hw_step e s) = 0 \<and>
         (g_edgeCount (hw_step e s) = 1 \<longrightarrow> icu_edge (hw_step e s) = FALLING)"
proof (cases e)
  case Tick
  with assms show ?thesis by (simp add: hw_step_def)
next
  case (Edge p)
  with assms(1) have p: "p = RAISING" by (cases p) auto
  show ?thesis
  proof (cases "icu_int s \<and> icu_edge s = p")
    case True
    with p assms(2) have "g_edgeCount s \<noteq> 1" by auto
    with True Edge p assms(2) show ?thesis
      by (simp add: hw_step_def Ultrasonic_edgeProcessing_def Let_def icu_defs logged_def)
  next
    case False
    with Edge assms(2) show ?thesis by (auto simp: hw_step_def)
  qed
qed

lemma no_falling_blocks:
  assumes "g_readyFlag s = 0" and "g_edgeCount s = 1 \<longrightarrow> icu_edge s = FALLING"
    and "\<forall>k. Edge FALLING \<notin> set (env k)"
  shows "Ultrasonic_readDistance env s = None"
proof -
  let ?P = "\<lambda>s. g_readyFlag s = 0 \<and> (g_edgeCount s = 1 \<longrightarrow> icu_edge s = FALLING)"
  have sub: "set (env k) \<subseteq> - {Edge FALLING}" for k using assms(3) by auto
  have step: "?P (hw_step e s1)" if "e \<in> - {Edge FALLING}" "?P s1" for e s1
    using hw_step_blocked [of e s1] that by simp
  have "?P (enter_wait env s)"
    by (rule enter_wait_invariant [where A = "- {Edge FALLING}" and P = ?P])
      (use assms(1,2) step sub in \<open>simp_all add: fg_defs\<close>)
  then have "?P (poll_state env 4 (enter_wait env s) n)" for n
    by (rule poll_state_invariant [where A = "- {Edge FALLING}" and P = ?P])
      (use step sub in \<open>simp_all add: logged_def\<close>)
  then have "\<not> (\<exists>r. Ultrasonic_readDistance env s = Some r)"
    unfolding readDistance_iff by simp
  then show ?thesis by (cases "Ultrasonic_readDistance env s") auto
qed

lemma hw_step_isr:
  assumes "c \<le> count_list (trace s) Isr \<and>
      (g_readyFlag s = 0 \<or> c < count_list (trace s) Isr)"
  shows "c \<le> count_list (trace (hw_step e s)) Isr \<and>
         (g_readyFlag (hw_step e s) = 0 \<or> c < count_list (trace (hw_step e s)) Isr)"
  using assms by (cases e) (auto simp: hw_step_def logged_def)

lemma ready_needs_isr:
  assumes "g_readyFlag s = 0" and "Ultrasonic_readDistance env s = Some (d, s')"
  shows "count_list (trace s) Isr < count_list (trace s') Isr"
proof -
  let ?c = "count_list (trace s) Isr"
  let ?P = "\<lambda>s1. ?c \<le> count_list (trace s1) Isr \<and>
      (g_readyFlag s1 = 0 \<or> ?c < count_list (trace s1) Isr)"
  from readDistance_end [OF assms(2)] obtain n q where
    q: "q = hw_run (env (n + 5)) (logged PollReady (poll_state env 4 (enter_wait env s) n))"
    and ready: "g_readyFlag (poll_state env 4 (enter_wait env s) n) \<noteq> 0"
    and tr: "trace s' = trace q @ [InterruptOff, ClearReady, ReadTimeHigh]"
    by blast
  have "?P (enter_wait env s)"
    by (rule enter_wait_invariant [where A = UNIV and P = ?P])
      (use assms(1) hw_step_isr in \<open>simp_all add: fg_defs\<close>)
  then have "?P (poll_state env 4 (enter_wait env s) n)"
    by (rule poll_state_invariant [where A = UNIV and P = ?P])
      (use hw_step_isr in \<open>simp_all add: logged_def\<close>)
  with ready have "?c < count_list (trace (poll_state env 4 (enter_wait env s) n)) Isr"
    by simp
  also have "\<dots> \<le> count_list (trace q) Isr"
    unfolding q
    by (intro grows_by_count [where B = UNIV] grows_by_hw_run grows_by_logged grows_by_refl)
      simp_all
  finally show ?thesis using tr by simp
qed

text \<open>
  Claim C7. \<^verbatim>\<open>Ultrasonic_readDistance\<close> returns exactly when some poll of its busy-wait
  finds the ready flag set; nothing else ends the loop. Entered with the flag clear, it
  returns only after the callback has run in between, and if the schedule never
  delivers a falling edge (the callback's phase agreeing with the selected polarity at
  entry) it never returns.
\<close>

theorem readDistance_returns_iff_ready:
  "((\<exists>r. Ultrasonic_readDistance env s = Some r) =
      (\<exists>n. g_readyFlag (poll_state env 4 (enter_wait env s) n) \<noteq> 0)) \<and>
   (g_readyFlag s = 0 \<and> in_phase s \<and> (\<forall>k. Edge FALLING \<notin> set (env k)) \<longrightarrow>
      Ultrasonic_readDistance env s = None) \<and>
   (g_readyFlag s = 0 \<and> Ultrasonic_readDistance env s = Some (d, s') \<longrightarrow>
      count_list (trace s) Isr < count_list (trace s') Isr)"
proof (intro conjI impI)
  show "(\<exists>r. Ultrasonic_readDistance env s = Some r) =
            (\<exists>n. g_readyFlag (poll_state env 4 (enter_wait env s) n) \<noteq> 0)"
    by (rule readDistance_iff)
next
  assume "g_readyFlag s = 0 \<and> in_phase s \<and> (\<forall>k. Edge FALLING \<notin> set (env k))"
  then show "Ultrasonic_readDistance env s = None"
    using no_falling_blocks [of s env] by (auto simp: in_phase_def)
next
  assume "g_readyFlag s = 0 \<and> Ultrasonic_readDistance env s = Some (d, s')"
  then show "count_list (trace s) Isr < count_list (trace s') Isr"
    using ready_needs_isr [of s env d s'] by simp
qed

theorem readDistance_returns_iff_ready_witness:
  "g_readyFlag initial_state = 0 \<and> in_phase initial_state \<and>
   (\<forall>k. Edge FALLING \<notin> set (lone_rising k)) \<and>
   Ultrasonic_readDistance lone_rising initial_state = None \<and>
   (\<exists>s'. Ultrasonic_readDistance (echo_at 4 1170) initial_state = Some (10, s') \<and>
      0 < count_list (trace s') Isr) \<and>
   (\<exists>n. g_readyFlag
      (poll_state (echo_at 4 1170) 4 (enter_wait (echo_at 4 1170) initial_state) n) \<noteq> 0)"
proof -
  have h: "g_readyFlag initial_state = 0" by (simp add: initial_state_def)
  have p: "in_phase initial_state" by (simp add: in_phase_def initial_state_def)
  have q: "\<forall>k. Edge FALLING \<notin> set (lone_rising k)" by (simp add: lone_rising_def)
  from echo_run obtain s' where
    run: "Ultrasonic_readDistance (echo_at 4 1170) initial_state = Some (10, s')" ..
  from readDistance_returns_iff_ready [of lone_rising initial_state] h p q
  have none: "Ultrasonic_readDistance lone_rising initial_state = None" by blast
  from readDistance_returns_iff_ready [of "echo_at 4 1170" initial_state 10 s'] run h
  have "0 < count_list (trace s') Isr"
    and "\<exists>n. g_readyFlag
      (poll_state (echo_at 4 1170) 4 (enter_wait (echo_at 4 1170) initial_state) n) \<noteq> 0"
    by (auto simp: initial_state_def)
  with h p q none run show ?thesis by blast
qed

end
